theory Spec2Isabelle
  imports Main "HOL-Library.Word" "HOL-Library.Sublist"
begin

unbundle bit_operations_syntax

section \<open>The bridge server (forwarder.c): serial line configuration\<close>

text \<open>
  The forwarder opens a serial device, puts it into raw mode at a given baud rate,
  accepts one TCP connection and copies bytes socket \<open>\<rightarrow>\<close> serial and serial \<open>\<rightarrow>\<close> standard
  output in two threads. This first part embeds \<^verbatim>\<open>baudrate_to_speed_t\<close> and
  \<^verbatim>\<open>configure_serial_port\<close>.
\<close>

subsection \<open>The termios interface\<close>

text \<open>
  \<^verbatim>\<open>tcflag_t\<close> and \<^verbatim>\<open>speed_t\<close> are \<^verbatim>\<open>unsigned int\<close>, \<^verbatim>\<open>cc_t\<close> is \<^verbatim>\<open>unsigned char\<close>.
  The array \<^verbatim>\<open>c_cc\<close> is a function from its indices: the code only writes the two
  constant indices \<^verbatim>\<open>VTIME\<close> and \<^verbatim>\<open>VMIN\<close>, both below \<^verbatim>\<open>NCCS\<close>.
\<close>

type_synonym tcflag_t = "32 word"
type_synonym speed_t = "32 word"
type_synonym cc_t = "8 word"

record termios =
  c_iflag :: tcflag_t
  c_oflag :: tcflag_t
  c_cflag :: tcflag_t
  c_lflag :: tcflag_t
  c_cc :: "nat \<Rightarrow> cc_t"
  c_ispeed :: speed_t
  c_ospeed :: speed_t

text \<open>
  The macros of \<^verbatim>\<open><termios.h>\<close> are not part of the repository. They are given the values
  of Linux's \<^verbatim>\<open>asm-generic/termbits.h\<close> (x86, ARM, RISC-V), written in hexadecimal.
\<close>

definition IGNBRK :: tcflag_t where "IGNBRK = 0x1"
definition BRKINT :: tcflag_t where "BRKINT = 0x2"
definition PARMRK :: tcflag_t where "PARMRK = 0x8"
definition ISTRIP :: tcflag_t where "ISTRIP = 0x20"
definition INLCR :: tcflag_t where "INLCR = 0x40"
definition IGNCR :: tcflag_t where "IGNCR = 0x80"
definition ICRNL :: tcflag_t where "ICRNL = 0x100"
definition IXON :: tcflag_t where "IXON = 0x400"
definition IXANY :: tcflag_t where "IXANY = 0x800"
definition IXOFF :: tcflag_t where "IXOFF = 0x1000"

definition OPOST :: tcflag_t where "OPOST = 0x1"
definition ONLCR :: tcflag_t where "ONLCR = 0x4"

definition CSIZE :: tcflag_t where "CSIZE = 0x30"
definition CS8 :: tcflag_t where "CS8 = 0x30"
definition CSTOPB :: tcflag_t where "CSTOPB = 0x40"
definition CREAD :: tcflag_t where "CREAD = 0x80"
definition PARENB :: tcflag_t where "PARENB = 0x100"
definition CLOCAL :: tcflag_t where "CLOCAL = 0x800"
definition CRTSCTS :: tcflag_t where "CRTSCTS = 0x80000000"

definition ISIG :: tcflag_t where "ISIG = 0x1"
definition ICANON :: tcflag_t where "ICANON = 0x2"
definition ECHO :: tcflag_t where "ECHO = 0x8"
definition ECHOE :: tcflag_t where "ECHOE = 0x10"
definition ECHONL :: tcflag_t where "ECHONL = 0x40"

definition VTIME :: nat where "VTIME = 5"
definition VMIN :: nat where "VMIN = 6"

definition B50 :: speed_t where "B50 = 0x1"
definition B75 :: speed_t where "B75 = 0x2"
definition B110 :: speed_t where "B110 = 0x3"
definition B134 :: speed_t where "B134 = 0x4"
definition B150 :: speed_t where "B150 = 0x5"
definition B200 :: speed_t where "B200 = 0x6"
definition B300 :: speed_t where "B300 = 0x7"
definition B600 :: speed_t where "B600 = 0x8"
definition B1200 :: speed_t where "B1200 = 0x9"
definition B1800 :: speed_t where "B1800 = 0xA"
definition B2400 :: speed_t where "B2400 = 0xB"
definition B4800 :: speed_t where "B4800 = 0xC"
definition B9600 :: speed_t where "B9600 = 0xD"
definition B19200 :: speed_t where "B19200 = 0xE"
definition B38400 :: speed_t where "B38400 = 0xF"
definition B57600 :: speed_t where "B57600 = 0x1001"
definition B115200 :: speed_t where "B115200 = 0x1002"
definition B230400 :: speed_t where "B230400 = 0x1003"
definition B460800 :: speed_t where "B460800 = 0x1004"
definition B500000 :: speed_t where "B500000 = 0x1005"
definition B576000 :: speed_t where "B576000 = 0x1006"
definition B921600 :: speed_t where "B921600 = 0x1007"
definition B1000000 :: speed_t where "B1000000 = 0x1008"
definition B1152000 :: speed_t where "B1152000 = 0x1009"
definition B1500000 :: speed_t where "B1500000 = 0x100A"
definition B2000000 :: speed_t where "B2000000 = 0x100B"
definition B2500000 :: speed_t where "B2500000 = 0x100C"
definition B3000000 :: speed_t where "B3000000 = 0x100D"
definition B3500000 :: speed_t where "B3500000 = 0x100E"
definition B4000000 :: speed_t where "B4000000 = 0x100F"

text \<open>What the program prints on its diagnostic channels, kept as data.\<close>

datatype diag =
  InvalidBaud int          \<comment> \<open>\<^verbatim>\<open>Error: Invalid or unsupported baud rate: %d\<close>\<close>
| PerrorTcgetattr          \<comment> \<open>\<^verbatim>\<open>perror("Error from tcgetattr")\<close>\<close>
| PerrorTcsetattr          \<comment> \<open>\<^verbatim>\<open>perror("Error from tcsetattr")\<close>\<close>

subsection \<open>\<^verbatim>\<open>baudrate_to_speed_t\<close>\<close>

text \<open>
  The \<^verbatim>\<open>switch\<close> over the thirty supported rates; the \<^verbatim>\<open>default\<close> branch prints
  the error and returns \<^verbatim>\<open>(speed_t)-1\<close>. The result is the speed and what was printed.
\<close>

definition baudrate_to_speed_t :: "int \<Rightarrow> speed_t \<times> diag list" where
  "baudrate_to_speed_t baudrate =
    (if baudrate = 50 then (B50, [])
     else if baudrate = 75 then (B75, [])
     else if baudrate = 110 then (B110, [])
     else if baudrate = 134 then (B134, [])
     else if baudrate = 150 then (B150, [])
     else if baudrate = 200 then (B200, [])
     else if baudrate = 300 then (B300, [])
     else if baudrate = 600 then (B600, [])
     else if baudrate = 1200 then (B1200, [])
     else if baudrate = 1800 then (B1800, [])
     else if baudrate = 2400 then (B2400, [])
     else if baudrate = 4800 then (B4800, [])
     else if baudrate = 9600 then (B9600, [])
     else if baudrate = 19200 then (B19200, [])
     else if baudrate = 38400 then (B38400, [])
     else if baudrate = 57600 then (B57600, [])
     else if baudrate = 115200 then (B115200, [])
     else if baudrate = 230400 then (B230400, [])
     else if baudrate = 460800 then (B460800, [])
     else if baudrate = 500000 then (B500000, [])
     else if baudrate = 576000 then (B576000, [])
     else if baudrate = 921600 then (B921600, [])
     else if baudrate = 1000000 then (B1000000, [])
     else if baudrate = 1152000 then (B1152000, [])
     else if baudrate = 1500000 then (B1500000, [])
     else if baudrate = 2000000 then (B2000000, [])
     else if baudrate = 2500000 then (B2500000, [])
     else if baudrate = 3000000 then (B3000000, [])
     else if baudrate = 3500000 then (B3500000, [])
     else if baudrate = 4000000 then (B4000000, [])
     else (- 1, [InvalidBaud baudrate]))"

text \<open>The enumerated set of rates the \<^verbatim>\<open>switch\<close> has a case for.\<close>

definition supported_baud_rates :: "int list" where
  "supported_baud_rates =
    [50, 75, 110, 134, 150, 200, 300, 600, 1200, 1800, 2400, 4800, 9600, 19200, 38400,
     57600, 115200, 230400, 460800, 500000, 576000, 921600, 1000000, 1152000, 1500000,
     2000000, 2500000, 3000000, 3500000, 4000000]"

subsection \<open>The serial line and the calls made on it\<close>

text \<open>
  The descriptor \<^verbatim>\<open>fd\<close> stands for a serial line: the attributes in force, whether the
  driver answers \<^verbatim>\<open>tcgetattr\<close>, which attribute sets it accepts in \<^verbatim>\<open>tcsetattr\<close>, and the
  history of the sets committed so far (oldest first). \<^verbatim>\<open>tcgetattr\<close> fills the caller's
  structure or fails; \<^verbatim>\<open>tcsetattr\<close> with \<^verbatim>\<open>TCSANOW\<close> puts the given set in force or
  fails and leaves the line as it was.
\<close>

record serial_line =
  attrs :: termios
  getattr_ok :: bool
  setattr_ok :: "termios \<Rightarrow> bool"
  commits :: "termios list"

definition tcgetattr :: "serial_line \<Rightarrow> termios option" where
  "tcgetattr fd = (if getattr_ok fd then Some (attrs fd) else None)"

definition tcsetattr :: "serial_line \<Rightarrow> termios \<Rightarrow> int \<times> serial_line" where
  "tcsetattr fd tty =
    (if setattr_ok fd tty then (0, fd\<lparr>attrs := tty, commits := commits fd @ [tty]\<rparr>)
     else (- 1, fd))"

text \<open>
  \<^verbatim>\<open>cfsetospeed\<close> and \<^verbatim>\<open>cfsetispeed\<close> belong to the C library. The program ignores
  their return values, so each is a parameter: any function from the structure and the
  speed to the structure it leaves behind.
\<close>

record speed_api =
  cfsetospeed :: "termios \<Rightarrow> speed_t \<Rightarrow> termios"
  cfsetispeed :: "termios \<Rightarrow> speed_t \<Rightarrow> termios"

subsection \<open>\<^verbatim>\<open>configure_serial_port\<close>\<close>

text \<open>The statements between the two speed calls and \<^verbatim>\<open>tcsetattr\<close>, in source order.\<close>

definition set_raw_flags :: "termios \<Rightarrow> termios" where
  "set_raw_flags tty0 =
    (let tty = tty0\<lparr>c_cflag := c_cflag tty0 AND NOT PARENB\<rparr>;
         tty = tty\<lparr>c_cflag := c_cflag tty AND NOT CSTOPB\<rparr>;
         tty = tty\<lparr>c_cflag := c_cflag tty AND NOT CSIZE\<rparr>;
         tty = tty\<lparr>c_cflag := c_cflag tty OR CS8\<rparr>;
         tty = tty\<lparr>c_cflag := c_cflag tty AND NOT CRTSCTS\<rparr>;
         tty = tty\<lparr>c_cflag := c_cflag tty OR (CREAD OR CLOCAL)\<rparr>;
         tty = tty\<lparr>c_lflag := c_lflag tty AND NOT ICANON\<rparr>;
         tty = tty\<lparr>c_lflag := c_lflag tty AND NOT ECHO\<rparr>;
         tty = tty\<lparr>c_lflag := c_lflag tty AND NOT ECHOE\<rparr>;
         tty = tty\<lparr>c_lflag := c_lflag tty AND NOT ECHONL\<rparr>;
         tty = tty\<lparr>c_lflag := c_lflag tty AND NOT ISIG\<rparr>;
         tty = tty\<lparr>c_iflag := c_iflag tty AND NOT (IXON OR IXOFF OR IXANY)\<rparr>;
         tty = tty\<lparr>c_iflag := c_iflag tty AND
                 NOT (IGNBRK OR BRKINT OR PARMRK OR ISTRIP OR INLCR OR IGNCR OR ICRNL)\<rparr>;
         tty = tty\<lparr>c_oflag := c_oflag tty AND NOT OPOST\<rparr>;
         tty = tty\<lparr>c_oflag := c_oflag tty AND NOT ONLCR\<rparr>;
         tty = tty\<lparr>c_cc := (c_cc tty)(VTIME := 10)\<rparr>;
         tty = tty\<lparr>c_cc := (c_cc tty)(VMIN := 1)\<rparr>
     in tty)"

text \<open>
  The result is the returned \<^verbatim>\<open>int\<close>, the line afterwards and the diagnostics printed.
  As in the source, the value \<^verbatim>\<open>b\<close> is handed to the two speed calls whatever it is.
\<close>

definition configure_serial_port ::
  "speed_api \<Rightarrow> serial_line \<Rightarrow> int \<Rightarrow> int \<times> serial_line \<times> diag list" where
  "configure_serial_port libc fd baud_rate =
    (case tcgetattr fd of
       None \<Rightarrow> (- 1, fd, [PerrorTcgetattr])
     | Some tty \<Rightarrow>
        (let (b, out) = baudrate_to_speed_t baud_rate;
             tty = cfsetospeed libc tty b;
             tty = cfsetispeed libc tty b;
             tty = set_raw_flags tty
         in case tcsetattr fd tty of (rc, fd') \<Rightarrow>
              if rc \<noteq> 0 then (- 1, fd', out @ [PerrorTcsetattr])
              else (0, fd', out)))"

text \<open>
  The call site in \<^verbatim>\<open>main\<close>: a negative result makes the program return 1 before it
  opens any socket; otherwise it goes on to listen. \<open>None\<close> means it goes on.
\<close>

definition main_configure :: "speed_api \<Rightarrow> serial_line \<Rightarrow> int \<Rightarrow> int option \<times> serial_line" where
  "main_configure libc serial_port_fd baud =
    (case configure_serial_port libc serial_port_fd baud of (rc, fd', out) \<Rightarrow>
       if rc < 0 then (Some 1, fd') else (None, fd'))"

subsection \<open>The raw-mode state, in the words of the design\<close>

text \<open>
  Eight data bits, no parity, one stop bit, hardware and software flow control off,
  local line with the receiver enabled, canonical mode, echo and signal characters off,
  output post-processing off, input special-character handling off.
\<close>

definition raw_mode :: "termios \<Rightarrow> bool" where
  "raw_mode tty \<longleftrightarrow>
     c_cflag tty AND CSIZE = CS8 \<and>
     c_cflag tty AND PARENB = 0 \<and>
     c_cflag tty AND CSTOPB = 0 \<and>
     c_cflag tty AND CRTSCTS = 0 \<and>
     c_iflag tty AND (IXON OR IXOFF OR IXANY) = 0 \<and>
     c_cflag tty AND CLOCAL = CLOCAL \<and>
     c_cflag tty AND CREAD = CREAD \<and>
     c_lflag tty AND (ICANON OR ECHO OR ECHOE OR ECHONL OR ISIG) = 0 \<and>
     c_oflag tty AND (OPOST OR ONLCR) = 0 \<and>
     c_iflag tty AND (IGNBRK OR BRKINT OR PARMRK OR ISTRIP OR INLCR OR IGNCR OR ICRNL) = 0"

subsection \<open>A concrete line and C library, for running the model\<close>

text \<open>
  An instance of the two speed calls: a speed with bits outside \<^verbatim>\<open>CBAUD\<close> is refused
  and the structure is left as it was (the call returns \<^verbatim>\<open>-1\<close>, which the program does
  not look at); any other speed is stored in the \<^verbatim>\<open>CBAUD\<close> bits of \<^verbatim>\<open>c_cflag\<close> and in
  the speed field.
\<close>

definition CBAUD :: tcflag_t where "CBAUD = 0x100F"

definition store_speed :: "bool \<Rightarrow> termios \<Rightarrow> speed_t \<Rightarrow> termios" where
  "store_speed out tty speed =
    (if speed AND NOT CBAUD \<noteq> 0 then tty
     else (let tty = tty\<lparr>c_cflag := (c_cflag tty AND NOT CBAUD) OR speed\<rparr>
           in if out then tty\<lparr>c_ospeed := speed\<rparr> else tty\<lparr>c_ispeed := speed\<rparr>))"

definition example_libc :: speed_api where
  "example_libc = \<lparr>cfsetospeed = store_speed True, cfsetispeed = store_speed False\<rparr>"

text \<open>
  A line in the usual cooked mode at 9600 baud (\<^verbatim>\<open>ICRNL|IXON\<close>, \<^verbatim>\<open>OPOST|ONLCR\<close>,
  \<^verbatim>\<open>B9600|CS8|CREAD|HUPCL|CLOCAL\<close>, canonical with echo and signals), whose driver answers
  every call.
\<close>

definition cooked_termios :: termios where
  "cooked_termios =
    \<lparr>c_iflag = 0x500, c_oflag = 0x5, c_cflag = 0xCBD, c_lflag = 0x8A3B,
     c_cc = (\<lambda>_. 0), c_ispeed = B9600, c_ospeed = B9600\<rparr>"

definition ttyUSB0 :: serial_line where
  "ttyUSB0 = \<lparr>attrs = cooked_termios, getattr_ok = True, setattr_ok = (\<lambda>_. True), commits = []\<rparr>"

section \<open>The bridge server (forwarder.c): the two forwarding threads\<close>

subsection \<open>Globals and constants\<close>

text \<open>
  The three file-scope variables of the forwarder. The descriptors are set once in
  \<^verbatim>\<open>main\<close> before the threads start and only read afterwards.
\<close>

type_synonym byte = "8 word"

record globals =
  tcp_socket_fd :: int
  serial_port_fd :: int
  verbose :: bool

definition RX_BUFFER_SIZE :: nat where "RX_BUFFER_SIZE = 2"
definition TX_BUFFER_SIZE :: nat where "TX_BUFFER_SIZE = 256"
definition STDOUT_FILENO :: int where "STDOUT_FILENO = 1"

subsection \<open>What the operating system does on a descriptor\<close>

text \<open>
  A descriptor that is read from is given by what will arrive on it, in order: segments
  of bytes, the end of the stream (the call returns 0) or an error (the call returns -1).
  \<open>os_read\<close> is one call of \<^verbatim>\<open>recv\<close> or \<^verbatim>\<open>read\<close> with a buffer of \<open>len\<close> bytes: it
  delivers at most \<open>len\<close> bytes of the first segment and leaves the remainder of the
  segment for the next call. Once nothing is left the stream has ended. The result is the
  value returned, the bytes delivered and what is still to arrive.
\<close>

datatype arrival = Data "byte list" | Eof | Err

type_synonym source = "arrival list"

fun os_read :: "source \<Rightarrow> nat \<Rightarrow> int \<times> byte list \<times> source" where
  "os_read [] len = (0, [], [])"
| "os_read (Eof # src) len = (0, [], src)"
| "os_read (Err # src) len = (- 1, [], src)"
| "os_read (Data bs # src) len =
    (int (length (take len bs)), take len bs,
     if take len bs = [] \<or> drop len bs = [] then src else Data (drop len bs) # src)"

text \<open>
  A descriptor that is written to is given by how it answers the successive calls of
  \<^verbatim>\<open>write\<close> (or \<^verbatim>\<open>send\<close>): \<open>Some room\<close> takes at most \<open>room\<close> bytes of the request,
  \<open>None\<close> fails with -1; after the last answer every request is taken whole. The result
  is the value returned and the answers still to come.
\<close>

type_synonym sink = "nat option list"

fun os_write :: "sink \<Rightarrow> byte list \<Rightarrow> int \<times> sink" where
  "os_write [] bs = (int (length bs), [])"
| "os_write (None # snk) bs = (- 1, snk)"
| "os_write (Some room # snk) bs = (int (min room (length bs)), snk)"

text \<open>
  A \<^verbatim>\<open>char\<close> array is a function from its indices. A read stores the delivered bytes at
  the front and leaves the other positions as they were; a write of \<open>count\<close> bytes hands
  over the first \<open>count\<close> positions.
\<close>

type_synonym buffer = "nat \<Rightarrow> byte"

definition fill :: "buffer \<Rightarrow> byte list \<Rightarrow> buffer" where
  "fill buf got = (\<lambda>i. if i < length got then got ! i else buf i)"

definition first_bytes :: "buffer \<Rightarrow> int \<Rightarrow> byte list" where
  "first_bytes buf count = map buf [0..<nat count]"

subsection \<open>Observable events\<close>

text \<open>Every call a thread makes is recorded, with the descriptor it was made on.\<close>

datatype event =
  Recv int int "byte list"    \<comment> \<open>\<^verbatim>\<open>recv(fd, buffer, sizeof(buffer), 0)\<close>: descriptor, value returned, bytes delivered\<close>
| Read int int "byte list"    \<comment> \<open>\<^verbatim>\<open>read(fd, buffer, sizeof(buffer))\<close>: the same\<close>
| Write int "byte list" int   \<comment> \<open>\<^verbatim>\<open>write(fd, buffer, bytes_read)\<close>: descriptor, bytes handed over, value returned\<close>
| Printf byte byte            \<comment> \<open>\<^verbatim>\<open>printf("%x %x\n", buffer[0], buffer[1])\<close>: the two values read\<close>
| Perror                      \<comment> \<open>\<^verbatim>\<open>perror("write")\<close>\<close>

text \<open>A thread function either returns \<^verbatim>\<open>NULL\<close> or ends the process with \<^verbatim>\<open>exit\<close>.\<close>

datatype outcome = Returned | Exited int

text \<open>
  The state of one thread: what its source will deliver, how its sink will answer, and
  the contents of its local \<^verbatim>\<open>buffer\<close> (arbitrary at the start: the array is not
  initialised).
\<close>

record io =
  src :: source
  snk :: sink
  buffer :: buffer

subsection \<open>\<^verbatim>\<open>tcp_to_serial_thread\<close>\<close>

text \<open>
  One evaluation of the loop condition followed, when it holds, by the loop body. The
  result is the events of this pass and either the outcome of the thread or the state
  for the next pass.
\<close>

definition tcp_to_serial_iteration :: "globals \<Rightarrow> io \<Rightarrow> event list \<times> (outcome + io)" where
  "tcp_to_serial_iteration g s =
    (case os_read (src s) RX_BUFFER_SIZE of (bytes_read, got, src') \<Rightarrow>
       let buffer = fill (buffer s) got in
       if bytes_read > 0 then
         (let log = (if verbose g then [Printf (buffer 0) (buffer 1)] else []);
              req = first_bytes buffer bytes_read
          in case os_write (snk s) req of (n, snk') \<Rightarrow>
               if n \<noteq> bytes_read
               then (Recv (tcp_socket_fd g) bytes_read got # log @
                       [Write (serial_port_fd g) req n, Perror], Inl (Exited 1))
               else (Recv (tcp_socket_fd g) bytes_read got # log @
                       [Write (serial_port_fd g) req n],
                     Inr \<lparr>src = src', snk = snk', buffer = buffer\<rparr>))
       else ([Recv (tcp_socket_fd g) bytes_read got], Inl Returned))"

text \<open>
  The thread function is the loop: passes until one of them ends it. A source is a finite
  list, and every pass that goes on has consumed part of it, so the recursion ends; what
  follows holds for every finite source. A call that does not return (a peer that stays
  silent with the connection open) is a thread that makes no further pass, which the
  model of \<^verbatim>\<open>main\<close> below covers by the schedules that do not choose it again.
\<close>

fun pending :: "source \<Rightarrow> nat" where
  "pending [] = 0"
| "pending (Data bs # rest) = Suc (length bs + pending rest)"
| "pending (a # rest) = Suc (pending rest)"

lemma os_read_pending:
  "os_read src0 len = (n, got, src') \<Longrightarrow> 0 < n \<Longrightarrow> pending src' < pending src0"
  by (induction src0 len rule: os_read.induct) (auto split: if_splits)

lemma tcp_to_serial_iteration_pending:
  "tcp_to_serial_iteration g s = (evs, Inr s') \<Longrightarrow> pending (src s') < pending (src s)"
  by (auto simp add: tcp_to_serial_iteration_def Let_def split: prod.splits if_splits
      dest: os_read_pending)

function tcp_to_serial_thread :: "globals \<Rightarrow> io \<Rightarrow> outcome \<times> event list" where
  "tcp_to_serial_thread g s =
    (case tcp_to_serial_iteration g s of
       (evs, Inl out) \<Rightarrow> (out, evs)
     | (evs, Inr s') \<Rightarrow>
         (case tcp_to_serial_thread g s' of (out, tr) \<Rightarrow> (out, evs @ tr)))"
  by pat_completeness auto
termination
  by (relation "measure (\<lambda>(g, s). pending (src s))")
     (auto dest: tcp_to_serial_iteration_pending [OF sym])

declare tcp_to_serial_thread.simps [simp del]

subsection \<open>\<^verbatim>\<open>serial_to_tcp_thread\<close>\<close>

text \<open>
  The branch compiled in is the \<^verbatim>\<open>#else\<close> one: the bytes go to standard output with
  \<^verbatim>\<open>write\<close>; the \<^verbatim>\<open>send\<close> to the socket is under \<^verbatim>\<open>#if 0\<close>.
\<close>

definition serial_to_tcp_iteration :: "globals \<Rightarrow> io \<Rightarrow> event list \<times> (outcome + io)" where
  "serial_to_tcp_iteration g s =
    (case os_read (src s) TX_BUFFER_SIZE of (bytes_read, got, src') \<Rightarrow>
       let buffer = fill (buffer s) got in
       if bytes_read > 0 then
         (let req = first_bytes buffer bytes_read
          in case os_write (snk s) req of (n, snk') \<Rightarrow>
               if n \<noteq> bytes_read
               then ([Read (serial_port_fd g) bytes_read got,
                      Write STDOUT_FILENO req n, Perror], Inl (Exited 1))
               else ([Read (serial_port_fd g) bytes_read got,
                      Write STDOUT_FILENO req n],
                     Inr \<lparr>src = src', snk = snk', buffer = buffer\<rparr>))
       else ([Read (serial_port_fd g) bytes_read got], Inl Returned))"

lemma serial_to_tcp_iteration_pending:
  "serial_to_tcp_iteration g s = (evs, Inr s') \<Longrightarrow> pending (src s') < pending (src s)"
  by (auto simp add: serial_to_tcp_iteration_def Let_def split: prod.splits if_splits
      dest: os_read_pending)

function serial_to_tcp_thread :: "globals \<Rightarrow> io \<Rightarrow> outcome \<times> event list" where
  "serial_to_tcp_thread g s =
    (case serial_to_tcp_iteration g s of
       (evs, Inl out) \<Rightarrow> (out, evs)
     | (evs, Inr s') \<Rightarrow>
         (case serial_to_tcp_thread g s' of (out, tr) \<Rightarrow> (out, evs @ tr)))"
  by pat_completeness auto
termination
  by (relation "measure (\<lambda>(g, s). pending (src s))")
     (auto dest: serial_to_tcp_iteration_pending [OF sym])

declare serial_to_tcp_thread.simps [simp del]

subsection \<open>Reading a trace\<close>

text \<open>The chunks delivered by the reads that returned a positive count.\<close>

fun chunks_read :: "event list \<Rightarrow> byte list list" where
  "chunks_read [] = []"
| "chunks_read (Recv fd n got # es) = (if 0 < n then got # chunks_read es else chunks_read es)"
| "chunks_read (Read fd n got # es) = (if 0 < n then got # chunks_read es else chunks_read es)"
| "chunks_read (e # es) = chunks_read es"

text \<open>The byte sequences handed to \<^verbatim>\<open>write\<close> on a descriptor, one per call.\<close>

fun chunks_written :: "int \<Rightarrow> event list \<Rightarrow> byte list list" where
  "chunks_written fd [] = []"
| "chunks_written fd (Write fd' req n # es) =
     (if fd' = fd then req # chunks_written fd es else chunks_written fd es)"
| "chunks_written fd (e # es) = chunks_written fd es"

text \<open>The bytes a descriptor has actually taken.\<close>

fun bytes_taken :: "int \<Rightarrow> event list \<Rightarrow> byte list" where
  "bytes_taken fd [] = []"
| "bytes_taken fd (Write fd' req n # es) =
     (if fd' = fd then take (nat n) req @ bytes_taken fd es else bytes_taken fd es)"
| "bytes_taken fd (e # es) = bytes_taken fd es"

text \<open>The descriptors written to, one per call.\<close>

fun write_fds :: "event list \<Rightarrow> int list" where
  "write_fds [] = []"
| "write_fds (Write fd req n # es) = fd # write_fds es"
| "write_fds (e # es) = write_fds es"

text \<open>The bytes a source delivers before it ends.\<close>

fun stream :: "source \<Rightarrow> byte list" where
  "stream [] = []"
| "stream (Data bs # rest) = (if bs = [] then [] else bs @ stream rest)"
| "stream (a # rest) = []"

text \<open>
  The events after which a loop cannot go on: a read that returned zero or less, a write
  that returned another count than the one requested, and the error report.
\<close>

fun stops :: "event \<Rightarrow> bool" where
  "stops (Recv fd n got) = (n \<le> 0)"
| "stops (Read fd n got) = (n \<le> 0)"
| "stops (Write fd req n) = (n \<noteq> int (length req))"
| "stops (Printf b0 b1) = False"
| "stops Perror = True"

fun is_log :: "event \<Rightarrow> bool" where
  "is_log (Printf b0 b1) = True"
| "is_log e = False"

text \<open>The diagnostic line of Direction A, present in verbose mode only.\<close>

definition vlog :: "globals \<Rightarrow> buffer \<Rightarrow> event list" where
  "vlog g buf = (if verbose g then [Printf (buf 0) (buf 1)] else [])"

subsection \<open>The end of \<^verbatim>\<open>main\<close>: two threads created, then joined\<close>










subsection \<open>Concrete runs\<close>

definition example_globals :: globals where
  "example_globals = \<lparr>tcp_socket_fd = 4, serial_port_fd = 3, verbose = True\<rparr>"

text \<open>Key down and key up for code 30, arriving as three bytes and then one.\<close>

definition key_presses :: io where
  "key_presses = \<lparr>src = [Data [254, 30, 255], Data [30], Eof], snk = [], buffer = (\<lambda>_. 0)\<rparr>"

definition serial_output :: io where
  "serial_output = \<lparr>src = [Data [72, 105], Eof], snk = [], buffer = (\<lambda>_. 0)\<rparr>"

text \<open>A serial device that takes the first chunk whole and one byte of the second.\<close>

definition stalled_serial :: io where
  "stalled_serial =
    \<lparr>src = [Data [254, 30], Data [255, 30]], snk = [Some 2, Some 1], buffer = (\<lambda>_. 0)\<rparr>"

text \<open>One byte arrives; the array holds \<^verbatim>\<open>0x5A\<close> everywhere from before.\<close>

definition one_byte :: io where
  "one_byte = \<lparr>src = [Data [254]], snk = [], buffer = (\<lambda>_. 0x5A)\<rparr>"





subsection \<open>Reading from the configured line\<close>



section \<open>The capture client: encoding key events\<close>

text \<open>
  \<^verbatim>\<open>struct input_event\<close> without its time stamp: \<^verbatim>\<open>__u16 type\<close>, \<^verbatim>\<open>__u16 code\<close>,
  \<^verbatim>\<open>__s32 value\<close>. \<^verbatim>\<open>EV_KEY\<close> is the value of \<^verbatim>\<open><linux/input-event-codes.h>\<close>.
\<close>

record input_event =
  ev_type :: "16 word"
  ev_code :: "16 word"
  ev_value :: "32 word"

definition EV_KEY :: "16 word" where "EV_KEY = 0x01"
definition PRESS_IDENTIFIER :: int where "PRESS_IDENTIFIER = 254"
definition RELEASE_IDENTIFIER :: int where "RELEASE_IDENTIFIER = 255"

datatype client_event =
  KeyDown int               \<comment> \<open>\<^verbatim>\<open>printf("Key Down: %d\n", code)\<close>\<close>
| KeyUp int                 \<comment> \<open>\<^verbatim>\<open>printf("Key Up: %d\n", code)\<close>\<close>
| UnknownEvent int          \<comment> \<open>\<^verbatim>\<open>printf("Unknown event: %d\n", ev.value)\<close>\<close>
| KeyCodeTooLarge int       \<comment> \<open>\<^verbatim>\<open>printf("Key code %d too large, skipping\n", code)\<close>\<close>
| Send "byte list" int      \<comment> \<open>\<^verbatim>\<open>send(sock, buffer, sizeof(buffer), 0)\<close>: the bytes and the value returned\<close>
| PerrorRead                \<comment> \<open>\<^verbatim>\<open>perror("Error reading input event")\<close>\<close>
| PerrorSend                \<comment> \<open>\<^verbatim>\<open>perror("Failed to send data")\<close>\<close>

text \<open>
  One pass of \<^verbatim>\<open>while (1)\<close>. The read is given by the value it returned and by what
  \<^verbatim>\<open>ev\<close> holds afterwards (for a short or empty read that is whatever the memory held).
  The result is the events, whether the loop goes on (\<open>False\<close> is a \<^verbatim>\<open>break\<close>) and the
  socket afterwards. The client's own \<^verbatim>\<open>verbose\<close> flag is the first argument.
\<close>

definition client_iteration ::
  "bool \<Rightarrow> int \<times> input_event \<Rightarrow> sink \<Rightarrow> client_event list \<times> bool \<times> sink" where
  "client_iteration verbose_c rd sock =
    (case rd of (n, ev) \<Rightarrow>
       if n < 0 then ([PerrorRead], False, sock)
       else if ev_type ev = EV_KEY then
         (let code = uint (ev_code ev);
              chosen =
                (if ev_value ev = 1
                 then Inr (if verbose_c then [KeyDown code] else [], PRESS_IDENTIFIER)
                 else if ev_value ev = 0
                 then Inr (if verbose_c then [KeyUp code] else [], RELEASE_IDENTIFIER)
                 else if ev_value ev = 2 then Inl []
                 else Inl [UnknownEvent (sint (ev_value ev))])
          in case chosen of
               Inl out \<Rightarrow> (out, True, sock)
             | Inr (out, identifier) \<Rightarrow>
                 if code > 255 then (out @ [KeyCodeTooLarge code], True, sock)
                 else
                   (let buffer = [word_of_int identifier, word_of_int code]
                    in case os_write sock buffer of (rc, sock') \<Rightarrow>
                         if rc \<noteq> 2 then (out @ [Send buffer rc, PerrorSend], False, sock')
                         else (out @ [Send buffer rc], True, sock')))
       else ([], True, sock))"

text \<open>
  The loop has no exit of its own, so it is run for a number of passes: \<open>None\<close> means it
  is still running after \<open>fuel\<close> passes, \<open>Some 0\<close> that it was left and \<^verbatim>\<open>main\<close> returned
  0. The reads are indexed by the number of the call.
\<close>

fun client_loop ::
  "nat \<Rightarrow> bool \<Rightarrow> (nat \<Rightarrow> int \<times> input_event) \<Rightarrow> nat \<Rightarrow> sink \<Rightarrow> client_event list \<times> int option"
where
  "client_loop 0 verbose_c reads i sock = ([], None)"
| "client_loop (Suc fuel) verbose_c reads i sock =
    (case client_iteration verbose_c (reads i) sock of (out, continue, sock') \<Rightarrow>
       if continue
       then (case client_loop fuel verbose_c reads (Suc i) sock' of (tr, r) \<Rightarrow> (out @ tr, r))
       else (out, Some 0))"

text \<open>The messages handed to \<^verbatim>\<open>send\<close>.\<close>

fun sent :: "client_event list \<Rightarrow> byte list list" where
  "sent [] = []"
| "sent (Send msg n # es) = msg # sent es"
| "sent (e # es) = sent es"

text \<open>A socket on which no \<^verbatim>\<open>send\<close> of two bytes fails or falls short.\<close>

definition never_fails :: "sink \<Rightarrow> bool" where
  "never_fails sock = list_all (\<lambda>r. case r of None \<Rightarrow> False | Some room \<Rightarrow> 2 \<le> room) sock"

definition key_a_down :: input_event where
  "key_a_down = \<lparr>ev_type = EV_KEY, ev_code = 30, ev_value = 1\<rparr>"

definition key_a_up :: input_event where
  "key_a_up = \<lparr>ev_type = EV_KEY, ev_code = 30, ev_value = 0\<rparr>"

definition key_a_repeat_300 :: input_event where
  "key_a_repeat_300 = \<lparr>ev_type = EV_KEY, ev_code = 300, ev_value = 2\<rparr>"

definition key_300_down :: input_event where
  "key_300_down = \<lparr>ev_type = EV_KEY, ev_code = 300, ev_value = 1\<rparr>"

text \<open>An input device at its end: every read returns 0 and leaves a stale event behind.\<close>

definition end_of_file :: "nat \<Rightarrow> int \<times> input_event" where
  "end_of_file i = (0, key_a_down)"

text \<open>The third read fails.\<close>

definition read_error :: "nat \<Rightarrow> int \<times> input_event" where
  "read_error i = (if i = 2 then (- 1, key_a_up) else (24, key_a_up))"

section \<open>Properties of the line configuration\<close>

subsection \<open>Masks\<close>

lemma and_not_same_zero: "(x AND NOT m) AND m = (0::'a::len word)"
  by (simp add: bit_eq_iff bit_simps)

lemma and_not_keeps_zero: "x AND m = 0 \<Longrightarrow> (x AND NOT k) AND m = (0::'a::len word)"
  by (auto simp add: bit_eq_iff bit_simps)

lemma or_keeps_zero: "x AND m = 0 \<Longrightarrow> k AND m = 0 \<Longrightarrow> (x OR k) AND m = (0::'a::len word)"
  by (auto simp add: bit_eq_iff bit_simps)

lemma or_sets: "k AND m = m \<Longrightarrow> (x OR k) AND m = (m::'a::len word)"
  by (auto simp add: bit_eq_iff bit_simps)

lemma or_after_clear: "k AND m = k \<Longrightarrow> ((x AND NOT m) OR k) AND m = (k::'a::len word)"
  by (auto simp add: bit_eq_iff bit_simps)

lemma and_not_keeps_field:
  "x AND m = v \<Longrightarrow> k AND m = 0 \<Longrightarrow> (x AND NOT k) AND m = (v::'a::len word)"
  by (auto simp add: bit_eq_iff bit_simps)

lemma or_keeps_field:
  "x AND m = v \<Longrightarrow> k AND m = 0 \<Longrightarrow> (x OR k) AND m = (v::'a::len word)"
  by (auto simp add: bit_eq_iff bit_simps)

subsection \<open>The fields after \<open>set_raw_flags\<close>\<close>

lemma c_cflag_set_raw_flags:
  "c_cflag (set_raw_flags t) =
    (((((c_cflag t AND NOT PARENB) AND NOT CSTOPB) AND NOT CSIZE) OR CS8) AND NOT CRTSCTS)
      OR (CREAD OR CLOCAL)"
  by (simp add: set_raw_flags_def Let_def)

lemma c_lflag_set_raw_flags:
  "c_lflag (set_raw_flags t) =
    ((((c_lflag t AND NOT ICANON) AND NOT ECHO) AND NOT ECHOE) AND NOT ECHONL) AND NOT ISIG"
  by (simp add: set_raw_flags_def Let_def)

lemma c_iflag_set_raw_flags:
  "c_iflag (set_raw_flags t) =
    (c_iflag t AND NOT (IXON OR IXOFF OR IXANY)) AND
      NOT (IGNBRK OR BRKINT OR PARMRK OR ISTRIP OR INLCR OR IGNCR OR ICRNL)"
  by (simp add: set_raw_flags_def Let_def)

lemma c_oflag_set_raw_flags:
  "c_oflag (set_raw_flags t) = (c_oflag t AND NOT OPOST) AND NOT ONLCR"
  by (simp add: set_raw_flags_def Let_def)


lemma set_raw_flags_PARENB: "c_cflag (set_raw_flags t) AND PARENB = 0"
  unfolding c_cflag_set_raw_flags
  by (intro or_keeps_zero and_not_keeps_zero and_not_same_zero)
     (simp_all add: PARENB_def CS8_def CREAD_def CLOCAL_def)

lemma set_raw_flags_CSTOPB: "c_cflag (set_raw_flags t) AND CSTOPB = 0"
  unfolding c_cflag_set_raw_flags
  by (intro or_keeps_zero and_not_keeps_zero and_not_same_zero)
     (simp_all add: CSTOPB_def CS8_def CREAD_def CLOCAL_def)

lemma set_raw_flags_CRTSCTS: "c_cflag (set_raw_flags t) AND CRTSCTS = 0"
  unfolding c_cflag_set_raw_flags
  by (intro or_keeps_zero and_not_keeps_zero and_not_same_zero)
     (simp_all add: CRTSCTS_def CREAD_def CLOCAL_def)

lemma set_raw_flags_CSIZE: "c_cflag (set_raw_flags t) AND CSIZE = CS8"
  unfolding c_cflag_set_raw_flags
  by (intro or_keeps_field and_not_keeps_field or_after_clear)
     (simp_all add: CSIZE_def CS8_def CREAD_def CLOCAL_def CRTSCTS_def)

lemma set_raw_flags_CLOCAL: "c_cflag (set_raw_flags t) AND CLOCAL = CLOCAL"
  unfolding c_cflag_set_raw_flags
  by (rule or_sets) (simp add: CREAD_def CLOCAL_def)

lemma set_raw_flags_CREAD: "c_cflag (set_raw_flags t) AND CREAD = CREAD"
  unfolding c_cflag_set_raw_flags
  by (rule or_sets) (simp add: CREAD_def CLOCAL_def)

lemma set_raw_flags_lflag:
  "c_lflag (set_raw_flags t) AND (ICANON OR ECHO OR ECHOE OR ECHONL OR ISIG) = 0"
  unfolding c_lflag_set_raw_flags
  by (auto simp add: bit_eq_iff bit_simps)

lemma set_raw_flags_oflag: "c_oflag (set_raw_flags t) AND (OPOST OR ONLCR) = 0"
  unfolding c_oflag_set_raw_flags
  by (auto simp add: bit_eq_iff bit_simps)

lemma set_raw_flags_flow: "c_iflag (set_raw_flags t) AND (IXON OR IXOFF OR IXANY) = 0"
  unfolding c_iflag_set_raw_flags
  by (auto simp add: bit_eq_iff bit_simps)

lemma set_raw_flags_input:
  "c_iflag (set_raw_flags t) AND
     (IGNBRK OR BRKINT OR PARMRK OR ISTRIP OR INLCR OR IGNCR OR ICRNL) = 0"
  unfolding c_iflag_set_raw_flags
  by (auto simp add: bit_eq_iff bit_simps)

lemma raw_mode_set_raw_flags: "raw_mode (set_raw_flags t)"
  unfolding raw_mode_def
  by (simp only: set_raw_flags_PARENB set_raw_flags_CSTOPB set_raw_flags_CRTSCTS
      set_raw_flags_CSIZE set_raw_flags_CLOCAL set_raw_flags_CREAD set_raw_flags_lflag
      set_raw_flags_oflag set_raw_flags_flow set_raw_flags_input simp_thms)

subsection \<open>The baud-rate table\<close>

lemma baudrate_to_speed_t_supported:
  "baudrate \<in> set supported_baud_rates \<Longrightarrow> snd (baudrate_to_speed_t baudrate) = []"
  unfolding supported_baud_rates_def baudrate_to_speed_t_def by auto

lemma baudrate_to_speed_t_unsupported:
  "baudrate \<notin> set supported_baud_rates \<Longrightarrow>
     baudrate_to_speed_t baudrate = (- 1, [InvalidBaud baudrate])"
  unfolding supported_baud_rates_def baudrate_to_speed_t_def by simp

subsection \<open>\<open>configure_serial_port\<close>\<close>

lemma configure_serial_port_success:
  assumes "getattr_ok fd"
    and "setattr_ok fd (set_raw_flags (cfsetispeed libc (cfsetospeed libc (attrs fd)
           (fst (baudrate_to_speed_t baud_rate))) (fst (baudrate_to_speed_t baud_rate))))"
  shows "\<exists>tty. configure_serial_port libc fd baud_rate =
           (0, fd\<lparr>attrs := set_raw_flags tty, commits := commits fd @ [set_raw_flags tty]\<rparr>,
            snd (baudrate_to_speed_t baud_rate))"
  using assms
  by (cases "baudrate_to_speed_t baud_rate")
     (auto simp add: configure_serial_port_def tcgetattr_def tcsetattr_def Let_def)


text \<open>
  The return value does not depend on the baud rate at all: on a line that answers both
  calls the function returns 0 for every integer, and what it commits is the raw-mode
  set built on whatever the two speed calls made of the sentinel.
\<close>

lemma configure_serial_port_any_baud:
  assumes "getattr_ok fd" and "\<And>tty. setattr_ok fd tty"
  shows "fst (configure_serial_port libc fd baud_rate) = 0"
    and "attrs (fst (snd (configure_serial_port libc fd baud_rate))) =
           set_raw_flags (cfsetispeed libc (cfsetospeed libc (attrs fd)
             (fst (baudrate_to_speed_t baud_rate))) (fst (baudrate_to_speed_t baud_rate)))"
  using assms
  by (cases "baudrate_to_speed_t baud_rate";
      simp add: configure_serial_port_def tcgetattr_def tcsetattr_def Let_def)+

text \<open>
  Claim C1 says that for a baud rate outside the supported set \<open>configure_serial_port\<close>
  fails and leaves the line's attributes as they were. The code does not do that:
  \<open>baudrate_to_speed_t\<close> prints its error and returns the sentinel \<^verbatim>\<open>(speed_t)-1\<close>, but
  \<open>configure_serial_port\<close> never compares \<^verbatim>\<open>b\<close> with it. At the unsupported rate 12345,
  on a cooked line whose driver answers both calls, the function returns 0, the only
  diagnostic is the invalid-rate message, one attribute set is committed and it differs
  from the prior one (raw mode at the old speed, 9600 baud), and \<^verbatim>\<open>main\<close> goes on to
  listen instead of returning 1.
\<close>

theorem configure_serial_port_unsupported_baud:
  "12345 \<notin> set supported_baud_rates \<and>
   fst (configure_serial_port example_libc ttyUSB0 12345) = 0 \<and>
   snd (snd (configure_serial_port example_libc ttyUSB0 12345)) = [InvalidBaud 12345] \<and>
   attrs (fst (snd (configure_serial_port example_libc ttyUSB0 12345))) \<noteq> attrs ttyUSB0 \<and>
   c_ospeed (attrs (fst (snd (configure_serial_port example_libc ttyUSB0 12345)))) = B9600 \<and>
   commits (fst (snd (configure_serial_port example_libc ttyUSB0 12345))) =
     [attrs (fst (snd (configure_serial_port example_libc ttyUSB0 12345)))] \<and>
   fst (main_configure example_libc ttyUSB0 12345) = None"
proof -
  let ?r = "configure_serial_port example_libc ttyUSB0 12345"
  have unsup: "12345 \<notin> set supported_baud_rates"
    by (simp add: supported_baud_rates_def)
  have b: "baudrate_to_speed_t 12345 = (- 1, [InvalidBaud 12345])"
    using baudrate_to_speed_t_unsupported [OF unsup] .
  have refused: "store_speed out tty (- 1) = tty" for out tty
    by (simp add: store_speed_def CBAUD_def)
  have r: "?r = (0, ttyUSB0\<lparr>attrs := set_raw_flags cooked_termios,
                    commits := [set_raw_flags cooked_termios]\<rparr>, [InvalidBaud 12345])"
    by (simp add: configure_serial_port_def tcgetattr_def tcsetattr_def b example_libc_def
        refused ttyUSB0_def Let_def)
  have "c_lflag (set_raw_flags cooked_termios) \<noteq> c_lflag cooked_termios"
    by (simp add: c_lflag_set_raw_flags cooked_termios_def ICANON_def ECHO_def ECHOE_def
        ECHONL_def ISIG_def)
  then have changed: "set_raw_flags cooked_termios \<noteq> cooked_termios" by auto
  have speed: "c_ospeed (set_raw_flags cooked_termios) = B9600"
    by (simp add: set_raw_flags_def Let_def cooked_termios_def)
  show ?thesis
    using unsup changed speed unfolding main_configure_def r by (simp add: ttyUSB0_def)
qed

text \<open>
  Claim C3: for every supported baud rate, when the attributes of the line can be
  retrieved (\<open>tcgetattr\<close> succeeds) and the set built by the function can be committed
  (\<open>tcsetattr\<close> accepts it), \<open>configure_serial_port\<close> returns 0 without printing a
  diagnostic and leaves the line in the raw-mode state of the design: 8 data bits, no
  parity, 1 stop bit, no hardware or software flow control, local line, receiver enabled,
  no canonical, echo or signal processing, no output post-processing, no input
  special-character handling. The fields are set on the local copy and the line's history
  grows by exactly one commit, the attribute set now in force.
\<close>

theorem configure_serial_port_raw_mode:
  assumes "baud_rate \<in> set supported_baud_rates"
    and "getattr_ok fd"
    and "setattr_ok fd (set_raw_flags (cfsetispeed libc (cfsetospeed libc (attrs fd)
           (fst (baudrate_to_speed_t baud_rate))) (fst (baudrate_to_speed_t baud_rate))))"
  shows "\<exists>fd'. configure_serial_port libc fd baud_rate = (0, fd', []) \<and>
           raw_mode (attrs fd') \<and> commits fd' = commits fd @ [attrs fd']"
proof -
  from configure_serial_port_success [OF assms(2,3)] obtain tty where
    "configure_serial_port libc fd baud_rate =
      (0, fd\<lparr>attrs := set_raw_flags tty, commits := commits fd @ [set_raw_flags tty]\<rparr>,
       snd (baudrate_to_speed_t baud_rate))" ..
  with baudrate_to_speed_t_supported [OF assms(1)] raw_mode_set_raw_flags [of tty]
  show ?thesis by simp
qed

theorem configure_serial_port_raw_mode_witness:
  "115200 \<in> set supported_baud_rates \<and> getattr_ok ttyUSB0 \<and>
   (\<exists>fd'. configure_serial_port example_libc ttyUSB0 115200 = (0, fd', []) \<and>
      raw_mode (attrs fd') \<and> commits fd' = commits ttyUSB0 @ [attrs fd'])"
proof -
  have a: "115200 \<in> set supported_baud_rates" by (simp add: supported_baud_rates_def)
  have b: "getattr_ok ttyUSB0" by (simp add: ttyUSB0_def)
  have c: "setattr_ok ttyUSB0 t" for t by (simp add: ttyUSB0_def)
  from configure_serial_port_raw_mode [OF a b c] a b show ?thesis by simp
qed








section \<open>Properties of the forwarding threads\<close>

subsection \<open>The operating-system calls\<close>

lemma os_read_positive:
  "os_read src0 len = (n, got, src') \<Longrightarrow> 0 < n \<Longrightarrow>
     n = int (length got) \<and> got \<noteq> [] \<and> length got \<le> len \<and> stream src0 = got @ stream src'"
  by (induction src0 len rule: os_read.induct) (auto split: if_splits)

lemma os_read_ended:
  "os_read src0 len = (n, got, src') \<Longrightarrow> \<not> 0 < n \<Longrightarrow> 0 < len \<Longrightarrow>
     got = [] \<and> stream src0 = []"
  by (induction src0 len rule: os_read.induct) (auto split: if_splits)

lemma first_bytes_fill: "first_bytes (fill buf got) (int (length got)) = got"
  by (auto simp add: first_bytes_def fill_def intro: nth_equalityI)

lemma os_write_result:
  "os_write snk0 req = (n, snk') \<Longrightarrow> n \<le> int (length req)"
  by (induction snk0 req rule: os_write.induct) auto

lemma RX_BUFFER_SIZE_pos: "0 < RX_BUFFER_SIZE"
  by (simp add: RX_BUFFER_SIZE_def)

lemma TX_BUFFER_SIZE_pos: "0 < TX_BUFFER_SIZE"
  by (simp add: TX_BUFFER_SIZE_def)

subsection \<open>One pass of each loop\<close>

lemma tcp_to_serial_iteration_unfold:
  assumes r: "os_read (src s) RX_BUFFER_SIZE = (n, got, src')"
    and w: "os_write (snk s) got = (k, snk')"
  shows "tcp_to_serial_iteration g s =
    (if 0 < n then
       if k \<noteq> n
       then (Recv (tcp_socket_fd g) n got # vlog g (fill (buffer s) got) @
               [Write (serial_port_fd g) got k, Perror], Inl (Exited 1))
       else (Recv (tcp_socket_fd g) n got # vlog g (fill (buffer s) got) @
               [Write (serial_port_fd g) got k],
             Inr \<lparr>src = src', snk = snk', buffer = fill (buffer s) got\<rparr>)
     else ([Recv (tcp_socket_fd g) n []], Inl Returned))"
proof (cases "0 < n")
  case True
  with os_read_positive [OF r] have n: "n = int (length got)" by simp
  have "first_bytes (fill (buffer s) got) n = got"
    unfolding n by (rule first_bytes_fill)
  with True r w show ?thesis
    by (simp add: tcp_to_serial_iteration_def Let_def vlog_def)
next
  case False
  with os_read_ended [OF r _ RX_BUFFER_SIZE_pos] have "got = []" by simp
  with False r show ?thesis
    by (simp add: tcp_to_serial_iteration_def Let_def)
qed

lemma serial_to_tcp_iteration_unfold:
  assumes r: "os_read (src s) TX_BUFFER_SIZE = (n, got, src')"
    and w: "os_write (snk s) got = (k, snk')"
  shows "serial_to_tcp_iteration g s =
    (if 0 < n then
       if k \<noteq> n
       then ([Read (serial_port_fd g) n got, Write STDOUT_FILENO got k, Perror],
             Inl (Exited 1))
       else ([Read (serial_port_fd g) n got, Write STDOUT_FILENO got k],
             Inr \<lparr>src = src', snk = snk', buffer = fill (buffer s) got\<rparr>)
     else ([Read (serial_port_fd g) n []], Inl Returned))"
proof (cases "0 < n")
  case True
  with os_read_positive [OF r] have n: "n = int (length got)" by simp
  have "first_bytes (fill (buffer s) got) n = got"
    unfolding n by (rule first_bytes_fill)
  with True r w show ?thesis
    by (simp add: serial_to_tcp_iteration_def Let_def)
next
  case False
  with os_read_ended [OF r _ TX_BUFFER_SIZE_pos] have "got = []" by simp
  with False r show ?thesis
    by (simp add: serial_to_tcp_iteration_def Let_def)
qed

text \<open>The three ways a pass of Direction A can go, and what the thread does in each.\<close>

lemma tcp_to_serial_thread_cases [consumes 0, case_names ended short full]:
  assumes ended: "\<And>n src'. os_read (src s) RX_BUFFER_SIZE = (n, [], src') \<Longrightarrow> n \<le> 0 \<Longrightarrow>
      stream (src s) = [] \<Longrightarrow>
      tcp_to_serial_thread g s = (Returned, [Recv (tcp_socket_fd g) n []]) \<Longrightarrow> thesis"
    and short: "\<And>got src' k snk'. os_read (src s) RX_BUFFER_SIZE = (int (length got), got, src') \<Longrightarrow>
      got \<noteq> [] \<Longrightarrow> os_write (snk s) got = (k, snk') \<Longrightarrow> k < int (length got) \<Longrightarrow>
      stream (src s) = got @ stream src' \<Longrightarrow>
      tcp_to_serial_thread g s =
        (Exited 1, Recv (tcp_socket_fd g) (int (length got)) got # vlog g (fill (buffer s) got) @
           [Write (serial_port_fd g) got k, Perror]) \<Longrightarrow> thesis"
    and full: "\<And>got src' snk' s'. os_read (src s) RX_BUFFER_SIZE = (int (length got), got, src') \<Longrightarrow>
      got \<noteq> [] \<Longrightarrow> os_write (snk s) got = (int (length got), snk') \<Longrightarrow>
      stream (src s) = got @ stream src' \<Longrightarrow>
      s' = \<lparr>src = src', snk = snk', buffer = fill (buffer s) got\<rparr> \<Longrightarrow>
      tcp_to_serial_iteration g s =
        (Recv (tcp_socket_fd g) (int (length got)) got # vlog g (fill (buffer s) got) @
           [Write (serial_port_fd g) got (int (length got))], Inr s') \<Longrightarrow>
      tcp_to_serial_thread g s =
        (fst (tcp_to_serial_thread g s'),
         Recv (tcp_socket_fd g) (int (length got)) got # vlog g (fill (buffer s) got) @
           [Write (serial_port_fd g) got (int (length got))] @ snd (tcp_to_serial_thread g s')) \<Longrightarrow>
      thesis"
  shows thesis
proof -
  obtain n got src' where r: "os_read (src s) RX_BUFFER_SIZE = (n, got, src')"
    by (cases "os_read (src s) RX_BUFFER_SIZE") auto
  obtain k snk' where w: "os_write (snk s) got = (k, snk')"
    by (cases "os_write (snk s) got") auto
  note it = tcp_to_serial_iteration_unfold [OF r w, of g]
  show thesis
  proof (cases "0 < n")
    case False
    with os_read_ended [OF r _ RX_BUFFER_SIZE_pos] have e: "got = []" "stream (src s) = []"
      by simp_all
    from False it have "tcp_to_serial_thread g s = (Returned, [Recv (tcp_socket_fd g) n []])"
      by (simp add: tcp_to_serial_thread.simps [of g s])
    with ended [of n src'] r e False show thesis by simp
  next
    case True
    from os_read_positive [OF r True]
    have p: "n = int (length got)" "got \<noteq> []" "stream (src s) = got @ stream src'"
      by simp_all
    show thesis
    proof (cases "k = n")
      case False
      with os_write_result [OF w] p have lt: "k < int (length got)" by simp
      from True False it have "tcp_to_serial_thread g s =
        (Exited 1, Recv (tcp_socket_fd g) n got # vlog g (fill (buffer s) got) @
           [Write (serial_port_fd g) got k, Perror])"
        by (simp add: tcp_to_serial_thread.simps [of g s])
      with short [of got src' k snk'] r w p lt show thesis by simp
    next
      case k: True
      let ?s' = "\<lparr>src = src', snk = snk', buffer = fill (buffer s) got\<rparr>"
      from True k it have i: "tcp_to_serial_iteration g s =
        (Recv (tcp_socket_fd g) n got # vlog g (fill (buffer s) got) @
           [Write (serial_port_fd g) got k], Inr ?s')" by simp
      then have "tcp_to_serial_thread g s =
        (fst (tcp_to_serial_thread g ?s'),
         Recv (tcp_socket_fd g) n got # vlog g (fill (buffer s) got) @
           [Write (serial_port_fd g) got k] @ snd (tcp_to_serial_thread g ?s'))"
        by (simp add: tcp_to_serial_thread.simps [of g s] split: prod.splits)
      with full [of got src' snk' ?s'] r w p k i show thesis by simp
    qed
  qed
qed

lemma tcp_to_serial_thread_induct [case_names step]:
  assumes "\<And>s. (\<And>evs s'. tcp_to_serial_iteration g s = (evs, Inr s') \<Longrightarrow> P s') \<Longrightarrow> P s"
  shows "P s"
proof (induction s rule: measure_induct_rule [of "\<lambda>s. pending (src s)"])
  case (less s)
  show ?case
    by (rule assms) (auto intro: less dest: tcp_to_serial_iteration_pending)
qed

text \<open>The same for Direction B.\<close>

lemma serial_to_tcp_thread_cases [consumes 0, case_names ended short full]:
  assumes ended: "\<And>n src'. os_read (src s) TX_BUFFER_SIZE = (n, [], src') \<Longrightarrow> n \<le> 0 \<Longrightarrow>
      stream (src s) = [] \<Longrightarrow>
      serial_to_tcp_thread g s = (Returned, [Read (serial_port_fd g) n []]) \<Longrightarrow> thesis"
    and short: "\<And>got src' k snk'. os_read (src s) TX_BUFFER_SIZE = (int (length got), got, src') \<Longrightarrow>
      got \<noteq> [] \<Longrightarrow> os_write (snk s) got = (k, snk') \<Longrightarrow> k < int (length got) \<Longrightarrow>
      stream (src s) = got @ stream src' \<Longrightarrow>
      serial_to_tcp_thread g s =
        (Exited 1, [Read (serial_port_fd g) (int (length got)) got,
           Write STDOUT_FILENO got k, Perror]) \<Longrightarrow> thesis"
    and full: "\<And>got src' snk' s'. os_read (src s) TX_BUFFER_SIZE = (int (length got), got, src') \<Longrightarrow>
      got \<noteq> [] \<Longrightarrow> os_write (snk s) got = (int (length got), snk') \<Longrightarrow>
      stream (src s) = got @ stream src' \<Longrightarrow>
      s' = \<lparr>src = src', snk = snk', buffer = fill (buffer s) got\<rparr> \<Longrightarrow>
      serial_to_tcp_iteration g s =
        ([Read (serial_port_fd g) (int (length got)) got,
          Write STDOUT_FILENO got (int (length got))], Inr s') \<Longrightarrow>
      serial_to_tcp_thread g s =
        (fst (serial_to_tcp_thread g s'),
         [Read (serial_port_fd g) (int (length got)) got,
          Write STDOUT_FILENO got (int (length got))] @ snd (serial_to_tcp_thread g s')) \<Longrightarrow>
      thesis"
  shows thesis
proof -
  obtain n got src' where r: "os_read (src s) TX_BUFFER_SIZE = (n, got, src')"
    by (cases "os_read (src s) TX_BUFFER_SIZE") auto
  obtain k snk' where w: "os_write (snk s) got = (k, snk')"
    by (cases "os_write (snk s) got") auto
  note it = serial_to_tcp_iteration_unfold [OF r w, of g]
  show thesis
  proof (cases "0 < n")
    case False
    with os_read_ended [OF r _ TX_BUFFER_SIZE_pos] have e: "got = []" "stream (src s) = []"
      by simp_all
    from False it have "serial_to_tcp_thread g s = (Returned, [Read (serial_port_fd g) n []])"
      by (simp add: serial_to_tcp_thread.simps [of g s])
    with ended [of n src'] r e False show thesis by simp
  next
    case True
    from os_read_positive [OF r True]
    have p: "n = int (length got)" "got \<noteq> []" "stream (src s) = got @ stream src'"
      by simp_all
    show thesis
    proof (cases "k = n")
      case False
      with os_write_result [OF w] p have lt: "k < int (length got)" by simp
      from True False it have "serial_to_tcp_thread g s =
        (Exited 1, [Read (serial_port_fd g) n got, Write STDOUT_FILENO got k, Perror])"
        by (simp add: serial_to_tcp_thread.simps [of g s])
      with short [of got src' k snk'] r w p lt show thesis by simp
    next
      case k: True
      let ?s' = "\<lparr>src = src', snk = snk', buffer = fill (buffer s) got\<rparr>"
      from True k it have i: "serial_to_tcp_iteration g s =
        ([Read (serial_port_fd g) n got, Write STDOUT_FILENO got k], Inr ?s')" by simp
      then have "serial_to_tcp_thread g s =
        (fst (serial_to_tcp_thread g ?s'),
         [Read (serial_port_fd g) n got, Write STDOUT_FILENO got k] @
           snd (serial_to_tcp_thread g ?s'))"
        by (simp add: serial_to_tcp_thread.simps [of g s] split: prod.splits)
      with full [of got src' snk' ?s'] r w p k i show thesis by simp
    qed
  qed
qed

lemma serial_to_tcp_thread_induct [case_names step]:
  assumes "\<And>s. (\<And>evs s'. serial_to_tcp_iteration g s = (evs, Inr s') \<Longrightarrow> P s') \<Longrightarrow> P s"
  shows "P s"
proof (induction s rule: measure_induct_rule [of "\<lambda>s. pending (src s)"])
  case (less s)
  show ?case
    by (rule assms) (auto intro: less dest: serial_to_tcp_iteration_pending)
qed

subsection \<open>Traces\<close>

lemma chunks_read_append: "chunks_read (es @ fs) = chunks_read es @ chunks_read fs"
  by (induction es rule: chunks_read.induct) auto

lemma chunks_written_append:
  "chunks_written fd (es @ fs) = chunks_written fd es @ chunks_written fd fs"
  by (induction fd es rule: chunks_written.induct) auto

lemma bytes_taken_append: "bytes_taken fd (es @ fs) = bytes_taken fd es @ bytes_taken fd fs"
  by (induction fd es rule: bytes_taken.induct) auto

lemma write_fds_append: "write_fds (es @ fs) = write_fds es @ write_fds fs"
  by (induction es rule: write_fds.induct) auto

lemma vlog_projections [simp]:
  "chunks_read (vlog g buf) = []" "chunks_written fd (vlog g buf) = []"
  "bytes_taken fd (vlog g buf) = []" "write_fds (vlog g buf) = []"
  by (simp_all add: vlog_def)

lemma unlogged_vlog [simp]: "filter (\<lambda>e. \<not> is_log e) (vlog g buf) = []"
  by (simp add: vlog_def)

lemma vlog_quiet [simp]: "vlog (g\<lparr>verbose := False\<rparr>) buf = []"
  by (simp add: vlog_def)

lemma chunks_written_unlogged:
  "chunks_written fd (filter (\<lambda>e. \<not> is_log e) es) = chunks_written fd es"
  by (induction fd es rule: chunks_written.induct) auto

lemma bytes_taken_unlogged:
  "bytes_taken fd (filter (\<lambda>e. \<not> is_log e) es) = bytes_taken fd es"
  by (induction fd es rule: bytes_taken.induct) auto

subsection \<open>Bytes are forwarded as they were read\<close>

lemma tcp_to_serial_chunks:
  "chunks_written (serial_port_fd g) (snd (tcp_to_serial_thread g s)) =
     chunks_read (snd (tcp_to_serial_thread g s)) \<and>
   set (write_fds (snd (tcp_to_serial_thread g s))) \<subseteq> {serial_port_fd g}"
proof (induction s rule: tcp_to_serial_thread_induct [where g = g])
  case (step s)
  show ?case
  proof (cases rule: tcp_to_serial_thread_cases [of s g])
    case (ended n src')
    then show ?thesis by simp
  next
    case (short got src' k snk')
    then show ?thesis
      by (simp add: chunks_read_append chunks_written_append write_fds_append)
  next
    case (full got src' snk' s')
    from step [OF full(6)] full(2,7) show ?thesis
      by (simp add: chunks_read_append chunks_written_append write_fds_append)
  qed
qed

lemma tcp_to_serial_bytes:
  "prefix (bytes_taken (serial_port_fd g) (snd (tcp_to_serial_thread g s))) (stream (src s)) \<and>
   (fst (tcp_to_serial_thread g s) = Returned \<longrightarrow>
      bytes_taken (serial_port_fd g) (snd (tcp_to_serial_thread g s)) = stream (src s))"
proof (induction s rule: tcp_to_serial_thread_induct [where g = g])
  case (step s)
  show ?case
  proof (cases rule: tcp_to_serial_thread_cases [of s g])
    case (ended n src')
    then show ?thesis by simp
  next
    case (short got src' k snk')
    then show ?thesis
      by (simp add: bytes_taken_append take_is_prefix prefix_prefix)
  next
    case (full got src' snk' s')
    from step [OF full(6)] full(2,4,5,7) show ?thesis
      by (simp add: bytes_taken_append)
  qed
qed

lemma serial_to_tcp_chunks:
  "chunks_written STDOUT_FILENO (snd (serial_to_tcp_thread g s)) =
     chunks_read (snd (serial_to_tcp_thread g s)) \<and>
   set (write_fds (snd (serial_to_tcp_thread g s))) \<subseteq> {STDOUT_FILENO}"
proof (induction s rule: serial_to_tcp_thread_induct [where g = g])
  case (step s)
  show ?case
  proof (cases rule: serial_to_tcp_thread_cases [of s g])
    case (ended n src')
    then show ?thesis by simp
  next
    case (short got src' k snk')
    then show ?thesis by simp
  next
    case (full got src' snk' s')
    from step [OF full(6)] full(2,7) show ?thesis by simp
  qed
qed

lemma serial_to_tcp_bytes:
  "prefix (bytes_taken STDOUT_FILENO (snd (serial_to_tcp_thread g s))) (stream (src s)) \<and>
   (fst (serial_to_tcp_thread g s) = Returned \<longrightarrow>
      bytes_taken STDOUT_FILENO (snd (serial_to_tcp_thread g s)) = stream (src s))"
proof (induction s rule: serial_to_tcp_thread_induct [where g = g])
  case (step s)
  show ?case
  proof (cases rule: serial_to_tcp_thread_cases [of s g])
    case (ended n src')
    then show ?thesis by simp
  next
    case (short got src' k snk')
    then show ?thesis
      by (simp add: take_is_prefix prefix_prefix)
  next
    case (full got src' snk' s')
    from step [OF full(6)] full(2,4,5,7) show ?thesis by simp
  qed
qed

lemma run_key_presses:
  "tcp_to_serial_thread example_globals key_presses =
    (Returned, [Recv 4 2 [254, 30], Printf 254 30, Write 3 [254, 30] 2,
                Recv 4 1 [255], Printf 255 30, Write 3 [255] 1,
                Recv 4 1 [30], Printf 30 30, Write 3 [30] 1, Recv 4 0 []])"
  by code_simp

lemma run_serial_output:
  "serial_to_tcp_thread example_globals serial_output =
    (Returned, [Read 3 2 [72, 105], Write 1 [72, 105] 2, Read 3 0 []])"
  by code_simp

lemma run_stalled_serial:
  "tcp_to_serial_thread example_globals stalled_serial =
    (Exited 1, [Recv 4 2 [254, 30], Printf 254 30, Write 3 [254, 30] 2,
                Recv 4 2 [255, 30], Printf 255 30, Write 3 [255, 30] 1, Perror])"
  by code_simp

text \<open>
  Claim C2: every chunk read is forwarded verbatim. In Direction A the byte sequences
  handed to \<^verbatim>\<open>write\<close> are, call for call and in order, the chunks that \<^verbatim>\<open>recv\<close>
  delivered (exactly the \<^verbatim>\<open>bytes_read\<close> bytes of each), and every write goes to the
  serial descriptor. What the serial device has taken is always a prefix of the bytes the
  connection delivered, and when the thread returns it is all of them: nothing reordered,
  dropped or repeated. Direction B does the same from the serial descriptor to standard
  output, and standard output is the only descriptor it writes to: nothing goes back to
  the TCP peer.
\<close>

theorem forwarding_is_verbatim:
  "chunks_written (serial_port_fd g) (snd (tcp_to_serial_thread g a)) =
     chunks_read (snd (tcp_to_serial_thread g a)) \<and>
   set (write_fds (snd (tcp_to_serial_thread g a))) \<subseteq> {serial_port_fd g} \<and>
   prefix (bytes_taken (serial_port_fd g) (snd (tcp_to_serial_thread g a))) (stream (src a)) \<and>
   (fst (tcp_to_serial_thread g a) = Returned \<longrightarrow>
      bytes_taken (serial_port_fd g) (snd (tcp_to_serial_thread g a)) = stream (src a)) \<and>
   chunks_written STDOUT_FILENO (snd (serial_to_tcp_thread g b)) =
     chunks_read (snd (serial_to_tcp_thread g b)) \<and>
   set (write_fds (snd (serial_to_tcp_thread g b))) \<subseteq> {STDOUT_FILENO} \<and>
   prefix (bytes_taken STDOUT_FILENO (snd (serial_to_tcp_thread g b))) (stream (src b)) \<and>
   (fst (serial_to_tcp_thread g b) = Returned \<longrightarrow>
      bytes_taken STDOUT_FILENO (snd (serial_to_tcp_thread g b)) = stream (src b))"
  using tcp_to_serial_chunks [of g a] tcp_to_serial_bytes [of g a]
    serial_to_tcp_chunks [of g b] serial_to_tcp_bytes [of g b]
  by simp

theorem forwarding_is_verbatim_witness:
  "fst (tcp_to_serial_thread example_globals key_presses) = Returned \<and>
   chunks_written 3 (snd (tcp_to_serial_thread example_globals key_presses)) =
     [[254, 30], [255], [30]] \<and>
   bytes_taken 3 (snd (tcp_to_serial_thread example_globals key_presses)) = [254, 30, 255, 30] \<and>
   stream (src key_presses) = [254, 30, 255, 30] \<and>
   fst (serial_to_tcp_thread example_globals serial_output) = Returned \<and>
   bytes_taken 1 (snd (serial_to_tcp_thread example_globals serial_output)) = [72, 105] \<and>
   write_fds (snd (serial_to_tcp_thread example_globals serial_output)) = [1]"
proof -
  have a: "fst (tcp_to_serial_thread example_globals key_presses) = Returned"
    by (simp add: run_key_presses)
  have b: "fst (serial_to_tcp_thread example_globals serial_output) = Returned"
    by (simp add: run_serial_output)
  have fd: "serial_port_fd example_globals = 3" by (simp add: example_globals_def)
  have sa: "stream (src key_presses) = [254, 30, 255, 30]" by (simp add: key_presses_def)
  have sb: "stream (src serial_output) = [72, 105]" by (simp add: serial_output_def)
  from forwarding_is_verbatim [of example_globals key_presses serial_output] a b
  have "bytes_taken 3 (snd (tcp_to_serial_thread example_globals key_presses)) =
          [254, 30, 255, 30]"
    and "bytes_taken 1 (snd (serial_to_tcp_thread example_globals serial_output)) = [72, 105]"
    by (simp_all add: fd sa sb STDOUT_FILENO_def)
  then show ?thesis
    using a b sa by (simp add: run_key_presses run_serial_output)
qed

subsection \<open>How a direction ends\<close>

lemma tcp_to_serial_ending:
  "\<exists>es. \<not> list_ex stops es \<and>
     ((\<exists>n. n \<le> 0 \<and> tcp_to_serial_thread g s = (Returned, es @ [Recv (tcp_socket_fd g) n []])) \<or>
      (\<exists>req k. k \<noteq> int (length req) \<and>
         tcp_to_serial_thread g s = (Exited 1, es @ [Write (serial_port_fd g) req k, Perror])))"
proof (induction s rule: tcp_to_serial_thread_induct [where g = g])
  case (step s)
  show ?case
  proof (cases rule: tcp_to_serial_thread_cases [of s g])
    case (ended n src')
    then show ?thesis by (intro exI [of _ "[]"]) simp
  next
    case (short got src' k snk')
    let ?es = "Recv (tcp_socket_fd g) (int (length got)) got # vlog g (fill (buffer s) got)"
    have "\<not> list_ex stops ?es" using short(2) by (simp add: vlog_def)
    with short(4,6) show ?thesis by (intro exI [of _ ?es]) auto
  next
    case (full got src' snk' s')
    let ?evs = "Recv (tcp_socket_fd g) (int (length got)) got # vlog g (fill (buffer s) got) @
           [Write (serial_port_fd g) got (int (length got))]"
    have evs: "\<not> list_ex stops ?evs" using full(2) by (simp add: vlog_def)
    from step [OF full(6)] obtain es where es: "\<not> list_ex stops es"
      and alt: "(\<exists>n. n \<le> 0 \<and> tcp_to_serial_thread g s' = (Returned, es @ [Recv (tcp_socket_fd g) n []])) \<or>
      (\<exists>req k. k \<noteq> int (length req) \<and>
         tcp_to_serial_thread g s' = (Exited 1, es @ [Write (serial_port_fd g) req k, Perror]))"
      by blast
    from evs es have "\<not> list_ex stops (?evs @ es)" by simp
    with alt full(7) show ?thesis by (intro exI [of _ "?evs @ es"]) auto
  qed
qed

lemma serial_to_tcp_ending:
  "\<exists>es. \<not> list_ex stops es \<and>
     ((\<exists>n. n \<le> 0 \<and> serial_to_tcp_thread g s = (Returned, es @ [Read (serial_port_fd g) n []])) \<or>
      (\<exists>req k. k \<noteq> int (length req) \<and>
         serial_to_tcp_thread g s = (Exited 1, es @ [Write STDOUT_FILENO req k, Perror])))"
proof (induction s rule: serial_to_tcp_thread_induct [where g = g])
  case (step s)
  show ?case
  proof (cases rule: serial_to_tcp_thread_cases [of s g])
    case (ended n src')
    then show ?thesis by (intro exI [of _ "[]"]) simp
  next
    case (short got src' k snk')
    let ?es = "[Read (serial_port_fd g) (int (length got)) got]"
    have "\<not> list_ex stops ?es" using short(2) by simp
    with short(4,6) show ?thesis by (intro exI [of _ ?es]) auto
  next
    case (full got src' snk' s')
    let ?evs = "[Read (serial_port_fd g) (int (length got)) got,
          Write STDOUT_FILENO got (int (length got))]"
    have evs: "\<not> list_ex stops ?evs" using full(2) by simp
    from step [OF full(6)] obtain es where es: "\<not> list_ex stops es"
      and alt: "(\<exists>n. n \<le> 0 \<and> serial_to_tcp_thread g s' = (Returned, es @ [Read (serial_port_fd g) n []])) \<or>
      (\<exists>req k. k \<noteq> int (length req) \<and>
         serial_to_tcp_thread g s' = (Exited 1, es @ [Write STDOUT_FILENO req k, Perror]))"
      by blast
    from evs es have "\<not> list_ex stops (?evs @ es)" by simp
    with alt full(7) show ?thesis by (intro exI [of _ "?evs @ es"]) auto
  qed
qed

text \<open>
  Claim C4: each direction ends in one of two ways. Either a read returns zero or a
  negative value, which is the last event, and the thread returns normally; or a write
  returns a count other than the one requested (a short write or an error), after which
  the only thing done is the error report and the process exits with status 1. Before
  that last read or write no read returned zero or less and no write fell short, so a
  short write is never followed by a second attempt.
\<close>

theorem forwarding_ends:
  "(\<exists>es. \<not> list_ex stops es \<and>
     ((\<exists>n. n \<le> 0 \<and> tcp_to_serial_thread g a = (Returned, es @ [Recv (tcp_socket_fd g) n []])) \<or>
      (\<exists>req k. k \<noteq> int (length req) \<and>
         tcp_to_serial_thread g a = (Exited 1, es @ [Write (serial_port_fd g) req k, Perror])))) \<and>
   (\<exists>es. \<not> list_ex stops es \<and>
     ((\<exists>n. n \<le> 0 \<and> serial_to_tcp_thread g b = (Returned, es @ [Read (serial_port_fd g) n []])) \<or>
      (\<exists>req k. k \<noteq> int (length req) \<and>
         serial_to_tcp_thread g b = (Exited 1, es @ [Write STDOUT_FILENO req k, Perror]))))"
  using tcp_to_serial_ending [of g a] serial_to_tcp_ending [of g b] by (rule conjI)

theorem forwarding_ends_witness:
  "tcp_to_serial_thread example_globals stalled_serial =
    (Exited 1, [Recv 4 2 [254, 30], Printf 254 30, Write 3 [254, 30] 2,
                Recv 4 2 [255, 30], Printf 255 30] @ [Write 3 [255, 30] 1, Perror]) \<and>
   \<not> list_ex stops [Recv 4 2 [254, 30], Printf 254 30, Write 3 [254, 30] 2,
                Recv 4 2 [255, 30], Printf 255 30] \<and>
   serial_to_tcp_thread example_globals serial_output =
    (Returned, [Read 3 2 [72, 105], Write 1 [72, 105] 2] @ [Read 3 0 []]) \<and>
   \<not> list_ex stops [Read 3 2 [72, 105], Write 1 [72, 105] 2]"
  using forwarding_ends [of example_globals stalled_serial serial_output]
  by (simp add: run_stalled_serial run_serial_output)

subsection \<open>Verbose mode\<close>

lemma tcp_to_serial_thread_unlogged:
  "fst (tcp_to_serial_thread g s) = fst (tcp_to_serial_thread (g\<lparr>verbose := False\<rparr>) s) \<and>
   filter (\<lambda>e. \<not> is_log e) (snd (tcp_to_serial_thread g s)) =
     snd (tcp_to_serial_thread (g\<lparr>verbose := False\<rparr>) s)"
proof (induction s rule: tcp_to_serial_thread_induct [where g = g])
  case (step s)
  let ?q = "g\<lparr>verbose := False\<rparr>"
  obtain n got src' where r: "os_read (src s) RX_BUFFER_SIZE = (n, got, src')"
    by (cases "os_read (src s) RX_BUFFER_SIZE") auto
  obtain k snk' where w: "os_write (snk s) got = (k, snk')"
    by (cases "os_write (snk s) got") auto
  note it = tcp_to_serial_iteration_unfold [OF r w, of g]
  note iq = tcp_to_serial_iteration_unfold [OF r w, of ?q]
  show ?case
  proof (cases "0 < n \<and> k = n")
    case False
    with it iq show ?thesis
      by (auto simp add: tcp_to_serial_thread.simps [of g s] tcp_to_serial_thread.simps [of ?q s])
  next
    case True
    let ?s' = "\<lparr>src = src', snk = snk', buffer = fill (buffer s) got\<rparr>"
    from True it have "tcp_to_serial_iteration g s =
        (Recv (tcp_socket_fd g) n got # vlog g (fill (buffer s) got) @
           [Write (serial_port_fd g) got k], Inr ?s')" by simp
    from step [OF this] True it iq show ?thesis
      by (simp add: tcp_to_serial_thread.simps [of g s] tcp_to_serial_thread.simps [of ?q s]
          case_prod_beta)
  qed
qed

text \<open>
  Claim C8: the verbose flag has no effect on forwarding. For the same input and the same
  serial device, the run with \<^verbatim>\<open>verbose\<close> set and the run without it have the same
  outcome, the same events once the diagnostic lines are removed, and therefore the same
  write requests on the serial descriptor and the same bytes taken by it.
\<close>

theorem verbose_is_a_side_channel:
  "fst (tcp_to_serial_thread (g\<lparr>verbose := True\<rparr>) s) =
     fst (tcp_to_serial_thread (g\<lparr>verbose := False\<rparr>) s) \<and>
   filter (\<lambda>e. \<not> is_log e) (snd (tcp_to_serial_thread (g\<lparr>verbose := True\<rparr>) s)) =
     snd (tcp_to_serial_thread (g\<lparr>verbose := False\<rparr>) s) \<and>
   chunks_written (serial_port_fd g) (snd (tcp_to_serial_thread (g\<lparr>verbose := True\<rparr>) s)) =
     chunks_written (serial_port_fd g) (snd (tcp_to_serial_thread (g\<lparr>verbose := False\<rparr>) s)) \<and>
   bytes_taken (serial_port_fd g) (snd (tcp_to_serial_thread (g\<lparr>verbose := True\<rparr>) s)) =
     bytes_taken (serial_port_fd g) (snd (tcp_to_serial_thread (g\<lparr>verbose := False\<rparr>) s))"
proof -
  let ?v = "tcp_to_serial_thread (g\<lparr>verbose := True\<rparr>) s"
  let ?q = "tcp_to_serial_thread (g\<lparr>verbose := False\<rparr>) s"
  from tcp_to_serial_thread_unlogged [of "g\<lparr>verbose := True\<rparr>" s]
  have a: "fst ?v = fst ?q" and b: "filter (\<lambda>e. \<not> is_log e) (snd ?v) = snd ?q"
    by simp_all
  from chunks_written_unlogged [of "serial_port_fd g" "snd ?v"]
    bytes_taken_unlogged [of "serial_port_fd g" "snd ?v"] a b
  show ?thesis by simp
qed

theorem verbose_is_a_side_channel_witness:
  "bytes_taken 3 (snd (tcp_to_serial_thread (example_globals\<lparr>verbose := True\<rparr>) key_presses)) =
   bytes_taken 3 (snd (tcp_to_serial_thread (example_globals\<lparr>verbose := False\<rparr>) key_presses))"
  using verbose_is_a_side_channel [of example_globals key_presses]
  by (simp add: example_globals_def)

text \<open>
  Claim C9: in verbose mode, when \<^verbatim>\<open>recv\<close> returns exactly one byte \<open>x\<close>, the diagnostic
  line prints \<open>x\<close> and \<^verbatim>\<open>buffer[1]\<close>, and the latter is what position 1 of the array held
  before the call (a byte of an earlier chunk, or the uninitialised contents): the call did
  not fill it. The write that follows hands over the one byte received and nothing else.
\<close>

theorem verbose_log_reads_unfilled_byte:
  assumes "verbose g" and "os_read (src s) RX_BUFFER_SIZE = (1, got, src')"
  shows "\<exists>x k evs. got = [x] \<and>
           fst (tcp_to_serial_iteration g s) =
             Recv (tcp_socket_fd g) 1 [x] # Printf x (buffer s 1) #
               Write (serial_port_fd g) [x] k # evs"
proof -
  from os_read_positive [OF assms(2)] have "length got = 1" by simp
  then obtain x where x: "got = [x]" by (cases got) auto
  obtain k snk' where w: "os_write (snk s) got = (k, snk')"
    by (cases "os_write (snk s) got") auto
  from tcp_to_serial_iteration_unfold [OF assms(2) w, of g] assms(1) x
  show ?thesis by (auto simp add: vlog_def fill_def)
qed

theorem verbose_log_reads_unfilled_byte_witness:
  "verbose example_globals \<and> os_read (src one_byte) RX_BUFFER_SIZE = (1, [254], []) \<and>
   buffer one_byte 1 = 0x5A \<and>
   fst (tcp_to_serial_iteration example_globals one_byte) =
     [Recv 4 1 [254], Printf 254 0x5A, Write 3 [254] 1]"
proof -
  have v: "verbose example_globals" by (simp add: example_globals_def)
  have r: "os_read (src one_byte) RX_BUFFER_SIZE = (1, [254], [])"
    by (simp add: one_byte_def RX_BUFFER_SIZE_def)
  have w: "os_write (snk one_byte) [254] = (1, [])" by (simp add: one_byte_def)
  from verbose_log_reads_unfilled_byte [OF v r] obtain x k evs where
    "fst (tcp_to_serial_iteration example_globals one_byte) =
       Recv (tcp_socket_fd example_globals) 1 [x] # Printf x (buffer one_byte 1) #
         Write (serial_port_fd example_globals) [x] k # evs" by blast
  moreover have "fst (tcp_to_serial_iteration example_globals one_byte) =
      [Recv 4 1 [254], Printf 254 (buffer one_byte 1), Write 3 [254] 1]"
    using tcp_to_serial_iteration_unfold [OF r w, of example_globals]
    by (simp add: vlog_def fill_def example_globals_def)
  moreover have "buffer one_byte 1 = 0x5A" by (simp add: one_byte_def)
  ultimately show ?thesis using v r by simp
qed

section \<open>Properties of the joins in \<^verbatim>\<open>main\<close>\<close>




















section \<open>Properties of the capture client\<close>

lemma sent_append: "sent (es @ fs) = sent es @ sent fs"
  by (induction es rule: sent.induct) auto

lemma byte_of_code: "0 \<le> code \<Longrightarrow> code \<le> 255 \<Longrightarrow> uint (word_of_int code :: byte) = code"
  by (simp add: uint_word_of_int take_bit_int_eq_self)

lemma uint_code_nonneg: "0 \<le> uint (ev_code ev)"
  by simp

lemma client_iteration_sent_length:
  "list_all (\<lambda>m. length m = 2) (sent (fst (client_iteration verbose_c rd sock)))"
  by (cases rd)
     (auto simp add: client_iteration_def Let_def sent_append split: if_splits prod.splits)

lemma client_loop_sent_length:
  "list_all (\<lambda>m. length m = 2) (sent (fst (client_loop fuel verbose_c reads i sock)))"
proof (induction fuel arbitrary: i sock)
  case 0
  show ?case by simp
next
  case (Suc fuel)
  obtain out continue sock' where
    it: "client_iteration verbose_c (reads i) sock = (out, continue, sock')"
    by (cases "client_iteration verbose_c (reads i) sock") auto
  from client_iteration_sent_length [of verbose_c "reads i" sock] it
  have "list_all (\<lambda>m. length m = 2) (sent out)" by simp
  with Suc.IH [of "Suc i" sock'] it show ?case
    by (simp add: case_prod_beta sent_append)
qed

text \<open>
  Claim C7 says that any key event with a code above 255 is dropped with a warning. The
  value is examined first: an auto-repeat event (value 2) leaves the pass at its
  \<^verbatim>\<open>continue\<close> before the code is looked at, so with code 300 it is dropped with no
  output at all, even in verbose mode.
\<close>

theorem auto_repeat_above_255_dropped_silently:
  "ev_type key_a_repeat_300 = EV_KEY \<and> 255 < uint (ev_code key_a_repeat_300) \<and>
   client_iteration True (24, key_a_repeat_300) [] = ([], True, [])"
  by (simp add: client_iteration_def key_a_repeat_300_def EV_KEY_def)

text \<open>
  Claim C7 as the code has it. For a key event that was read without error: value 1 with
  a code of at most 255 sends the two bytes press sentinel, code; value 0 likewise with
  the release sentinel; the second byte is the code itself, not a truncation; value 2 is
  dropped with no output and any other value with the unknown-event line, both before the
  code is looked at; a press or release with a code above 255 is dropped with the
  too-large warning; nothing is sent for a code above 255; and every message the loop
  sends is two bytes long.
\<close>

theorem key_event_encoding:
  assumes "0 \<le> n" and "ev_type ev = EV_KEY"
  shows
   "(ev_value ev = 1 \<and> uint (ev_code ev) \<le> 255 \<longrightarrow>
       sent (fst (client_iteration verbose_c (n, ev) sock)) =
         [[word_of_int PRESS_IDENTIFIER, word_of_int (uint (ev_code ev))]]) \<and>
    (ev_value ev = 0 \<and> uint (ev_code ev) \<le> 255 \<longrightarrow>
       sent (fst (client_iteration verbose_c (n, ev) sock)) =
         [[word_of_int RELEASE_IDENTIFIER, word_of_int (uint (ev_code ev))]]) \<and>
    (uint (ev_code ev) \<le> 255 \<longrightarrow>
       uint (word_of_int (uint (ev_code ev)) :: byte) = uint (ev_code ev)) \<and>
    (ev_value ev = 2 \<longrightarrow> client_iteration verbose_c (n, ev) sock = ([], True, sock)) \<and>
    (ev_value ev \<noteq> 1 \<and> ev_value ev \<noteq> 0 \<and> ev_value ev \<noteq> 2 \<longrightarrow>
       client_iteration verbose_c (n, ev) sock =
         ([UnknownEvent (sint (ev_value ev))], True, sock)) \<and>
    ((ev_value ev = 1 \<or> ev_value ev = 0) \<and> 255 < uint (ev_code ev) \<longrightarrow>
       client_iteration verbose_c (n, ev) sock =
         ((if verbose_c
           then [if ev_value ev = 1 then KeyDown (uint (ev_code ev))
                 else KeyUp (uint (ev_code ev))]
           else []) @ [KeyCodeTooLarge (uint (ev_code ev))], True, sock)) \<and>
    (255 < uint (ev_code ev) \<longrightarrow> sent (fst (client_iteration verbose_c (n, ev) sock)) = []) \<and>
    list_all (\<lambda>m. length m = 2) (sent (fst (client_loop fuel verbose_c reads i sock')))"
proof -
  have len: "list_all (\<lambda>m. length m = 2) (sent (fst (client_loop fuel verbose_c reads i sock')))"
    by (rule client_loop_sent_length)
  have byte: "uint (ev_code ev) \<le> 255 \<longrightarrow>
       uint (word_of_int (uint (ev_code ev)) :: byte) = uint (ev_code ev)"
    using byte_of_code [OF uint_code_nonneg [of ev]] by simp
  from assms len byte show ?thesis
    by (auto simp add: client_iteration_def Let_def sent_append split: prod.splits)
qed

theorem key_event_encoding_witness:
  "(0::int) \<le> 24 \<and> ev_type key_a_down = EV_KEY \<and> ev_type key_a_up = EV_KEY \<and>
   ev_type key_300_down = EV_KEY \<and>
   sent (fst (client_iteration False (24, key_a_down) [])) = [[254, 30]] \<and>
   sent (fst (client_iteration False (24, key_a_up) [])) = [[255, 30]] \<and>
   client_iteration False (24, key_300_down) [] = ([KeyCodeTooLarge 300], True, [])"
proof -
  have n: "(0::int) \<le> 24" by simp
  have d: "ev_type key_a_down = EV_KEY" "ev_value key_a_down = 1" "uint (ev_code key_a_down) = 30"
    by (simp_all add: key_a_down_def)
  have u: "ev_type key_a_up = EV_KEY" "ev_value key_a_up = 0" "uint (ev_code key_a_up) = 30"
    by (simp_all add: key_a_up_def)
  have b: "ev_type key_300_down = EV_KEY" "ev_value key_300_down = 1"
    "uint (ev_code key_300_down) = 300"
    by (simp_all add: key_300_down_def)
  from key_event_encoding [OF n d(1), of False "[]"] d
    key_event_encoding [OF n u(1), of False "[]"] u
    key_event_encoding [OF n b(1), of False "[]"] b
  show ?thesis
    by (simp add: PRESS_IDENTIFIER_def RELEASE_IDENTIFIER_def)
qed

lemma os_write_never_fails:
  "never_fails sock \<Longrightarrow> length msg = 2 \<Longrightarrow> os_write sock msg = (n, sock') \<Longrightarrow>
     n = 2 \<and> never_fails sock'"
  by (induction sock msg rule: os_write.induct) (auto simp add: never_fails_def)

lemma client_iteration_continues:
  assumes "0 \<le> fst rd" and "never_fails sock"
    and "client_iteration verbose_c rd sock = (out, continue, sock')"
  shows "continue \<and> never_fails sock'"
  using assms
  by (cases rd)
     (auto simp add: client_iteration_def Let_def
        split: if_splits prod.splits dest: os_write_never_fails [rotated 2])

lemma client_loop_exit:
  "snd (client_loop fuel verbose_c reads i sock) = Some r \<Longrightarrow>
     r = 0 \<and>
     (\<exists>es. fst (client_loop fuel verbose_c reads i sock) = es @ [PerrorRead] \<or>
        (\<exists>m k. k \<noteq> 2 \<and>
           fst (client_loop fuel verbose_c reads i sock) = es @ [Send m k, PerrorSend]))"
proof (induction fuel arbitrary: i sock)
  case 0
  then show ?case by simp
next
  case (Suc fuel)
  obtain out continue sock' where
    it: "client_iteration verbose_c (reads i) sock = (out, continue, sock')"
    by (cases "client_iteration verbose_c (reads i) sock") auto
  show ?case
  proof (cases continue)
    case True
    with Suc.prems it have "snd (client_loop fuel verbose_c reads (Suc i) sock') = Some r"
      by (simp add: case_prod_beta)
    from Suc.IH [OF this] obtain es where r: "r = 0"
      and "fst (client_loop fuel verbose_c reads (Suc i) sock') = es @ [PerrorRead] \<or>
        (\<exists>m k. k \<noteq> 2 \<and>
           fst (client_loop fuel verbose_c reads (Suc i) sock') = es @ [Send m k, PerrorSend])"
      by blast
    with True it have
      "fst (client_loop (Suc fuel) verbose_c reads i sock) = (out @ es) @ [PerrorRead] \<or>
        (\<exists>m k. k \<noteq> 2 \<and>
           fst (client_loop (Suc fuel) verbose_c reads i sock) = (out @ es) @ [Send m k, PerrorSend])"
      by (auto simp add: case_prod_beta)
    with r show ?thesis by blast
  next
    case False
    with it have l: "client_loop (Suc fuel) verbose_c reads i sock = (out, Some 0)" by simp
    from it False have "out = [] @ [PerrorRead] \<or>
      (\<exists>es m k. k \<noteq> 2 \<and> out = es @ [Send m k, PerrorSend])"
      by (cases "reads i")
         (auto simp add: client_iteration_def Let_def split: if_splits prod.splits)
    with l Suc.prems show ?thesis by auto
  qed
qed

lemma client_loop_runs_on:
  assumes "\<forall>i. 0 \<le> fst (reads i)" and "never_fails sock"
  shows "snd (client_loop fuel verbose_c reads i sock) = None"
  using assms(2)
proof (induction fuel arbitrary: i sock)
  case 0
  show ?case by simp
next
  case (Suc fuel)
  obtain out continue sock' where
    it: "client_iteration verbose_c (reads i) sock = (out, continue, sock')"
    by (cases "client_iteration verbose_c (reads i) sock") auto
  from client_iteration_continues [OF _ Suc.prems it] assms(1)
  have "continue" "never_fails sock'" by simp_all
  with Suc.IH [of sock' "Suc i"] it show ?case
    by (simp add: case_prod_beta)
qed

text \<open>
  Claim C10: a read that returns 0 does not end the client's loop. The loop is left only
  after a negative read (its last event is then the read error report) or after a
  \<^verbatim>\<open>send\<close> that did not return 2 (the last events are that send and its error report).
  So when every read returns zero or more, as at a persistent end of file, and no send
  fails, the loop is still running after any number of passes.
\<close>

theorem client_loop_only_exits:
  "(\<forall>r. snd (client_loop fuel verbose_c reads i sock) = Some r \<longrightarrow>
      r = 0 \<and>
      (\<exists>es. fst (client_loop fuel verbose_c reads i sock) = es @ [PerrorRead] \<or>
         (\<exists>m k. k \<noteq> 2 \<and>
            fst (client_loop fuel verbose_c reads i sock) = es @ [Send m k, PerrorSend]))) \<and>
   ((\<forall>j. 0 \<le> fst (reads j)) \<and> never_fails sock \<longrightarrow>
      snd (client_loop fuel verbose_c reads i sock) = None)"
  using client_loop_exit [of fuel verbose_c reads i sock]
    client_loop_runs_on [of reads sock fuel verbose_c i]
  by blast

theorem client_loop_only_exits_witness:
  "(\<forall>j. 0 \<le> fst (end_of_file j)) \<and> never_fails [] \<and>
   snd (client_loop 50 False end_of_file 0 []) = None \<and>
   client_loop 50 False read_error 0 [] =
     ([Send [255, 30] 2, Send [255, 30] 2] @ [PerrorRead], Some 0)"
proof -
  have a: "\<forall>j. 0 \<le> fst (end_of_file j)" by (simp add: end_of_file_def)
  have b: "never_fails []" by (simp add: never_fails_def)
  have c: "client_loop 50 False read_error 0 [] =
     ([Send [255, 30] 2, Send [255, 30] 2] @ [PerrorRead], Some 0)"
    by code_simp
  from client_loop_only_exits [of 50 False end_of_file 0 "[]"] a b c
  show ?thesis by simp
qed

end
